theory Spec2Isabelle
  imports Main
begin

section \<open>Values handled by \<open>dcm2bids_prep.py\<close>\<close>

text \<open>
  \<open>json.load\<close> hands back whatever JSON document the file holds, so \<open>prot_dict\<close> is a
  JSON value and not only an object. A Python dictionary keeps its insertion order, hence
  the association list. Floating point numbers are left out.
\<close>

datatype json =
    JNull
  | JBool bool
  | JInt int
  | JStr string
  | JArr "json list"
  | JObj "(string \<times> json) list"

text \<open>Python truth value testing, as \<open>if prot_dict and ...\<close> applies it.\<close>

fun truthy :: "json \<Rightarrow> bool" where
  "truthy JNull = False"
| "truthy (JBool b) = b"
| "truthy (JInt i) = (i \<noteq> 0)"
| "truthy (JStr s) = (s \<noteq> [])"
| "truthy (JArr xs) = (xs \<noteq> [])"
| "truthy (JObj kvs) = (kvs \<noteq> [])"

text \<open>
  The values stored in a DICOM header and in \<open>dcm_info\<close>: \<open>PatientSex\<close> and
  \<open>PatientAge\<close> are strings, the default age is the integer \<open>0\<close>.
\<close>

datatype pyval = PStr string | PInt int

text \<open>
  A header as \<open>dicom.read_file\<close> returns it: the data elements by keyword, in file order.
  \<open>Dataset\<close> is a dictionary subclass, so a header with no data element is false in
  \<open>if ds:\<close>, exactly as the initial \<open>ds = []\<close> is; both are the empty list here.
  \<open>hasattr(ds, 'PatientSex')\<close> holds when the element is present.
\<close>

type_synonym dataset = "(string \<times> pyval) list"

record dcm_info =
  Sex :: pyval
  Age :: pyval

text \<open>
  What ends a call early. \<open>sys.exit(n)\<close> raises \<open>SystemExit\<close>; \<open>OSError\<close> stands for
  every failure of \<open>open\<close>.
\<close>

datatype exn =
    NameError string
  | JSONDecodeError
  | OSError
  | SystemExit int

text \<open>
  The status the process ends with: the argument of \<open>sys.exit\<close>, and 1 after an
  exception nobody caught.
\<close>

fun exit_status :: "exn \<Rightarrow> int" where
  "exit_status (SystemExit n) = n"
| "exit_status e = 1"

section \<open>Paths and the directory tree\<close>

text \<open>\<open>root.split(os.sep)\<close>: the pieces between slashes, empty pieces included.\<close>

fun split_sep :: "string \<Rightarrow> string list" where
  "split_sep [] = [[]]"
| "split_sep (c # cs) =
     (if c = CHR ''/'' then [] # split_sep cs
      else (case split_sep cs of
              [] \<Rightarrow> [[c]]
            | w # ws \<Rightarrow> (c # w) # ws))"

text \<open>\<open>os.path.basename\<close>: what follows the last slash.\<close>

definition basename :: "string \<Rightarrow> string" where
  "basename p = last (split_sep p)"

text \<open>\<open>os.path.join\<close> of two parts (POSIX).\<close>

definition path_join :: "string \<Rightarrow> string \<Rightarrow> string" where
  "path_join a b =
     (if b \<noteq> [] \<and> hd b = CHR ''/'' then b
      else if a = [] \<or> last a = CHR ''/'' then a @ b
      else a @ ''/'' @ b)"

text \<open>
  The files the program sees: a tree of named entries in the order the operating system
  lists them. The type \<open>'c\<close> is what a file holds. The tree is rooted at the directory
  the process runs in, taken to be the root directory, so that a relative and an
  absolute path name the same entry. Symbolic links and \<open>..\<close> are not part of the
  tree.
\<close>

datatype 'c node =
    File 'c
  | Dir "(string \<times> 'c node) list"

fun is_dir :: "'c node \<Rightarrow> bool" where
  "is_dir (Dir es) = True"
| "is_dir (File c) = False"

definition components :: "string \<Rightarrow> string list" where
  "components p = filter (\<lambda>c. c \<noteq> [] \<and> c \<noteq> ''.'') (split_sep p)"

fun lookup_comps :: "'c node \<Rightarrow> string list \<Rightarrow> 'c node option" where
  "lookup_comps n [] = Some n"
| "lookup_comps (File c) (x # xs) = None"
| "lookup_comps (Dir es) (x # xs) =
     (case map_of es x of
        None \<Rightarrow> None
      | Some n \<Rightarrow> lookup_comps n xs)"

text \<open>
  The entry a path names, if any. The empty path names nothing, and a path that ends in
  a slash or in \<open>.\<close> names a directory or nothing.
\<close>

definition must_be_dir :: "string \<Rightarrow> bool" where
  "must_be_dir p = (last (split_sep p) = [] \<or> last (split_sep p) = ''.'')"

definition resolve :: "'c node \<Rightarrow> string \<Rightarrow> 'c node option" where
  "resolve fs p =
     (if p = [] then None
      else (case lookup_comps fs (components p) of
              None \<Rightarrow> None
            | Some (Dir es) \<Rightarrow> Some (Dir es)
            | Some (File c) \<Rightarrow> if must_be_dir p then None else Some (File c)))"

definition isfile :: "'c node \<Rightarrow> string \<Rightarrow> bool" where
  "isfile fs p = (case resolve fs p of Some (File c) \<Rightarrow> True | _ \<Rightarrow> False)"

definition isdir :: "'c node \<Rightarrow> string \<Rightarrow> bool" where
  "isdir fs p = (case resolve fs p of Some (Dir es) \<Rightarrow> True | _ \<Rightarrow> False)"

text \<open>Replacing or adding one entry of a directory, keeping the order of the others.\<close>

fun set_entry :: "string \<Rightarrow> 'c node \<Rightarrow> (string \<times> 'c node) list \<Rightarrow> (string \<times> 'c node) list" where
  "set_entry k v [] = [(k, v)]"
| "set_entry k v (e # es) = (if fst e = k then (k, v) # es else e # set_entry k v es)"

text \<open>
  \<open>open(path, 'w')\<close>, the write and the close, as one step: the file is created or
  replaced when its directory exists and the path does not name a directory; otherwise
  \<open>open\<close> fails and nothing changes.
\<close>

fun store_comps :: "'c node \<Rightarrow> string list \<Rightarrow> 'c \<Rightarrow> 'c node option" where
  "store_comps n [] c = None"
| "store_comps (File c') (x # xs) c = None"
| "store_comps (Dir es) [x] c =
     (case map_of es x of
        Some (Dir ds) \<Rightarrow> None
      | _ \<Rightarrow> Some (Dir (set_entry x (File c) es)))"
| "store_comps (Dir es) (x # y # ys) c =
     (case map_of es x of
        None \<Rightarrow> None
      | Some n \<Rightarrow>
          (case store_comps n (y # ys) c of
             None \<Rightarrow> None
           | Some n' \<Rightarrow> Some (Dir (set_entry x n' es))))"

definition write_file :: "'c node \<Rightarrow> string \<Rightarrow> 'c \<Rightarrow> 'c node option" where
  "write_file fs p c =
     (if p = [] \<or> must_be_dir p then None else store_comps fs (components p) c)"

text \<open>
  \<open>os.walk(top)\<close>, top down: a directory yields its path, the names of its
  subdirectories and its files, then the subdirectories are walked in turn. Something
  that is not a directory yields nothing. Each file comes with what it holds, which is
  what opening \<open>os.path.join(subdir, file)\<close> reads while the tree does not change.
\<close>

type_synonym 'c walk_item = "string \<times> string list \<times> (string \<times> 'c) list"

fun files_of :: "(string \<times> 'c node) list \<Rightarrow> (string \<times> 'c) list" where
  "files_of [] = []"
| "files_of ((name, File c) # es) = (name, c) # files_of es"
| "files_of ((name, Dir ds) # es) = files_of es"

definition dirs_of :: "(string \<times> 'c node) list \<Rightarrow> (string \<times> 'c node) list" where
  "dirs_of es = filter (\<lambda>e. is_dir (snd e)) es"

function walk :: "string \<Rightarrow> 'c node \<Rightarrow> 'c walk_item list" where
  "walk here (File c) = []"
| "walk here (Dir es) =
     (here, map fst (dirs_of es), files_of es)
       # concat (map (\<lambda>e. walk (path_join here (fst e)) (snd e)) (dirs_of es))"
  by pat_completeness auto
termination
proof (relation "measure (\<lambda>p. size (snd p))")
  show "wf (measure (\<lambda>p. size (snd p)))"
    by simp
next
  fix here :: string and es :: "(string \<times> 'c node) list" and x :: "string \<times> 'c node"
  assume "x \<in> set (dirs_of es)"
  then have "x \<in> set es"
    by (simp add: dirs_of_def)
  then have "size (snd x) < Suc (size_list (size_prod (\<lambda>x. 0) size) es)"
    by (induction es) auto
  then show "((path_join here (fst x), snd x), (here, Dir es)) \<in> measure (\<lambda>p. size (snd p))"
    by simp
qed

definition os_walk :: "'c node \<Rightarrow> string \<Rightarrow> 'c walk_item list" where
  "os_walk fs here = (case resolve fs here of None \<Rightarrow> [] | Some n \<Rightarrow> walk here n)"

section \<open>The tree scanner\<close>

definition dashes :: "nat \<Rightarrow> string" where
  "dashes n = concat (replicate n ''---'')"

text \<open>\<open>print(a, b)\<close> writes the two strings with a blank between them.\<close>

definition print2 :: "string \<Rightarrow> string \<Rightarrow> string" where
  "print2 a b = a @ '' '' @ b"

text \<open>The lines one turn of the loop of \<open>scan_dicom_series\<close> prints.\<close>

fun scan_item :: "'c walk_item \<Rightarrow> string list" where
  "scan_item (root, dirs, files) =
     (let path = split_sep root
      in print2 (dashes (length path - 1)) (basename root)
           # map (\<lambda>f. print2 (dashes (length path)) (fst f)) files)"

text \<open>
  \<open>scan_dicom_series\<close>: the state of the loop is what has been printed and
  \<open>series_list\<close>; the result is both.
\<close>

definition scan_step :: "'c walk_item \<Rightarrow> string list \<times> string list \<Rightarrow> string list \<times> string list" where
  "scan_step item st = (fst st @ scan_item item, snd st)"

definition scan_dicom_series :: "'c node \<Rightarrow> string \<Rightarrow> string list \<times> string list" where
  "scan_dicom_series fs dcm_dir = fold scan_step (os_walk fs dcm_dir) ([], [])"

section \<open>The header reader\<close>

text \<open>
  The inner loop of \<open>bids_dcm_info\<close> over the files of one directory.
  \<open>read_file\<close> is \<open>dicom.read_file\<close>: \<open>None\<close> when it raises, which the bare
  \<open>except\<close> swallows, so that \<open>ds\<close> keeps the value it had. The \<open>break\<close> leaves this
  loop only.
\<close>

fun read_files :: "('c \<Rightarrow> dataset option) \<Rightarrow> (string \<times> 'c) list \<Rightarrow> dataset \<Rightarrow> dataset" where
  "read_files read_file [] ds = ds"
| "read_files read_file (f # fs) ds =
     (let ds' = (case read_file (snd f) of None \<Rightarrow> ds | Some d \<Rightarrow> d)
      in if ds' \<noteq> [] then ds' else read_files read_file fs ds')"

text \<open>The outer loop: every directory of the walk runs the inner loop on its files.\<close>

fun read_dirs :: "('c \<Rightarrow> dataset option) \<Rightarrow> 'c walk_item list \<Rightarrow> dataset \<Rightarrow> dataset" where
  "read_dirs read_file [] ds = ds"
| "read_dirs read_file ((subdir, dirs, files) # items) ds =
     read_dirs read_file items (read_files read_file files ds)"

definition fill_info :: "dataset \<Rightarrow> dcm_info" where
  "fill_info ds =
     \<lparr> Sex = (case map_of ds ''PatientSex'' of Some v \<Rightarrow> v | None \<Rightarrow> PStr ''Unknown''),
       Age = (case map_of ds ''PatientAge'' of Some v \<Rightarrow> v | None \<Rightarrow> PInt 0) \<rparr>"

definition no_header_lines :: "string \<Rightarrow> string list" where
  "no_header_lines dcm_dir =
     [''* No DICOM header information found in '' @ dcm_dir,
      ''* Confirm that DICOM images in this folder are uncompressed'',
      ''* Exiting'']"

text \<open>\<open>bids_dcm_info\<close>: what it prints, and \<open>dcm_info\<close> or the exception that ends it.\<close>

definition bids_dcm_info ::
  "('c \<Rightarrow> dataset option) \<Rightarrow> 'c node \<Rightarrow> string \<Rightarrow> string list \<times> (exn + dcm_info)" where
  "bids_dcm_info read_file fs dcm_dir =
     (let ds = read_dirs read_file (os_walk fs dcm_dir) []
      in if ds \<noteq> [] then ([], Inr (fill_info ds))
         else (no_header_lines dcm_dir, Inl (SystemExit 1)))"

section \<open>The protocol dictionary\<close>

text \<open>
  \<open>bids_load_prot_dict\<close>. \<open>loads\<close> is \<open>json.load\<close> on what the file holds:
  \<open>None\<close> when it raises.
\<close>

definition bids_load_prot_dict ::
  "('c \<Rightarrow> json option) \<Rightarrow> 'c node \<Rightarrow> string \<Rightarrow> exn + json" where
  "bids_load_prot_dict loads fs prot_dict_json =
     (if isfile fs prot_dict_json then
        (case resolve fs prot_dict_json of
           Some (File c) \<Rightarrow>
             (case loads c of
                None \<Rightarrow> Inl JSONDecodeError
              | Some prot_dict \<Rightarrow> Inr prot_dict)
         | _ \<Rightarrow> Inl OSError)
      else Inr (JObj []))"

definition exists_lines :: "string \<Rightarrow> string list" where
  "exists_lines prot_dict_json =
     [''* Protocol dictionary already exists : '' @ prot_dict_json,
      ''* Skipping creation of new dictionary'']"

definition created_lines :: "string \<Rightarrow> string list" where
  "created_lines prot_dict_json =
     [[],
      ''---'',
      ''New protocol dictionary created : '' @ prot_dict_json,
      ''Remember to replace '' @ [CHR 0x22] @ ''EXCLUDE'' @ [CHR 0x22]
        @ '' values in dictionary with an appropriate image description'',
      ''For example '' @ [CHR 0x22] @ ''MP-RAGE T1w 3D structural'' @ [CHR 0x22]
        @ '' or '' @ [CHR 0x22] @ ''MB-EPI BOLD resting-state'',
      ''---'',
      []]"

text \<open>
  \<open>bids_create_prot_dict\<close>: the tree afterwards, what was printed, and the exception
  if \<open>open\<close> raised. \<open>dumps\<close> is the text \<open>json.dump\<close> writes for \<open>prot_dict\<close>
  with the indentation and separators of the call.
\<close>

definition bids_create_prot_dict ::
  "(json \<Rightarrow> 'c) \<Rightarrow> 'c node \<Rightarrow> string \<Rightarrow> json \<Rightarrow> 'c node \<times> string list \<times> exn option" where
  "bids_create_prot_dict dumps fs prot_dict_json prot_dict =
     (if isfile fs prot_dict_json then (fs, exists_lines prot_dict_json, None)
      else (case write_file fs prot_dict_json (dumps prot_dict) of
              None \<Rightarrow> (fs, [], Some OSError)
            | Some fs' \<Rightarrow> (fs', created_lines prot_dict_json, None)))"

section \<open>The orchestrator\<close>

definition pass1_lines :: "string list" where
  "pass1_lines =
     [[],
      ''------------------------------------------------------------'',
      ''Pass 1 : Scan DICOM folders and create dictionary'',
      ''------------------------------------------------------------'']"

definition pass2_title :: "string" where
  "pass2_title = ''Pass 2 : Organizing Nifti data into BIDS directories''"

definition pass2_lines :: "string list" where
  "pass2_lines =
     [[],
      ''------------------------------------------------------------'',
      pass2_title,
      ''------------------------------------------------------------'']"

text \<open>
  The names bound to a string where \<open>main\<close> tests \<open>os.path.isdir(bids_root_dir)\<close>:
  its two path variables and the module's \<open>__version__\<close>. Every other name in scope is
  a module, a function, the parser, its result or the dictionary.
\<close>

definition names_in_main :: "string \<Rightarrow> string \<Rightarrow> (string \<times> string) list" where
  "names_in_main dcm_root_dir prot_dict_json =
     [(''dcm_root_dir'', dcm_root_dir),
      (''prot_dict_json'', prot_dict_json),
      (''__version__'', ''0.1'')]"

text \<open>
  \<open>main\<close>, from the parsed \<open>--indir\<close> on: the tree afterwards, what was printed, and the
  exception that ends the process (\<open>SystemExit 0\<close> is the clean exit). The second
  operand of \<open>and\<close> is evaluated only when \<open>prot_dict\<close> is true. Everything between
  the two banners and \<open>sys.exit(0)\<close> is commented out in the source.
\<close>

definition run_pass1 :: "'c node \<Rightarrow> string \<Rightarrow> 'c node \<times> string list \<times> exn" where
  "run_pass1 fs dcm_root_dir =
     (let scanned = scan_dicom_series fs dcm_root_dir
      in (fs, pass1_lines @ fst scanned, SystemExit 0))"

definition main :: "('c \<Rightarrow> json option) \<Rightarrow> 'c node \<Rightarrow> string \<Rightarrow> 'c node \<times> string list \<times> exn" where
  "main loads fs indir =
     (let dcm_root_dir = indir;
          prot_dict_json = path_join dcm_root_dir ''Protocol_Translator.json''
      in case bids_load_prot_dict loads fs prot_dict_json of
           Inl e \<Rightarrow> (fs, [], e)
         | Inr prot_dict \<Rightarrow>
             if truthy prot_dict then
               (case map_of (names_in_main dcm_root_dir prot_dict_json) ''bids_root_dir'' of
                  None \<Rightarrow> (fs, [], NameError ''bids_root_dir'')
                | Some bids_root_dir \<Rightarrow>
                    if isdir fs bids_root_dir then (fs, pass2_lines, SystemExit 0)
                    else run_pass1 fs dcm_root_dir)
             else run_pass1 fs dcm_root_dir)"

section \<open>A concrete library and concrete trees\<close>

text \<open>
  What a file holds, seen through the two libraries: a JSON document is the value
  \<open>json.load\<close> reads from it, a DICOM file is the header \<open>dicom.read_file\<close> reads from
  it, and anything else is read by neither.
\<close>

datatype content =
    JsonText json
  | DicomData dataset
  | OtherData string

fun json_load :: "content \<Rightarrow> json option" where
  "json_load (JsonText v) = Some v"
| "json_load c = None"

definition json_dump :: "json \<Rightarrow> content" where
  "json_dump v = JsonText v"

fun dicom_read_file :: "content \<Rightarrow> dataset option" where
  "dicom_read_file (DicomData ds) = Some ds"
| "dicom_read_file c = None"

text \<open>
  A study that has not been scanned yet: two subjects with one session each. The first
  session holds a text file and an anonymised image of the series \<open>T1w\<close> (no
  \<open>PatientSex\<close>, no \<open>PatientAge\<close>); the second holds no image at all.
\<close>

definition hdr_anon :: dataset where
  "hdr_anon = [(''SeriesDescription'', PStr ''T1w''), (''SeriesNumber'', PInt 2)]"

definition fs_fresh :: "content node" where
  "fs_fresh =
     Dir [(''dicom'',
           Dir [(''sub1'',
                 Dir [(''ses1'',
                       Dir [(''notes.txt'', File (OtherData ''first visit'')),
                            (''img1'', File (DicomData hdr_anon))])]),
                (''sub2'',
                 Dir [(''ses1'',
                       Dir [(''readme.txt'', File (OtherData ''no images''))])])])]"

text \<open>
  The same study after the user has written a dictionary with one real label, next to
  an output directory \<open>bids\<close> that exists.
\<close>

definition fs_ready :: "content node" where
  "fs_ready =
     Dir [(''dicom'',
           Dir [(''Protocol_Translator.json'',
                 File (JsonText (JObj [(''ser1'', JStr ''T1w'')]))),
                (''sub1'',
                 Dir [(''ses1'', Dir [(''img1'', File (DicomData hdr_anon))])])]),
          (''bids'', Dir [])]"

text \<open>A dictionary file that is not JSON.\<close>

definition fs_broken :: "content node" where
  "fs_broken =
     Dir [(''dicom'',
           Dir [(''Protocol_Translator.json'', File (OtherData ''{ser1: T1w'')),
                (''sub1'', Dir [(''ses1'', Dir [])])])]"

text \<open>
  A session whose images lie in the session directory and in a subdirectory, of two
  different patients' headers, and a session whose only file is a DICOM file with no
  data element.
\<close>

definition hdr_first :: dataset where
  "hdr_first = [(''PatientSex'', PStr ''M''), (''PatientAge'', PStr ''030Y'')]"

definition hdr_later :: dataset where
  "hdr_later = [(''PatientSex'', PStr ''F''), (''PatientAge'', PStr ''040Y'')]"

definition fs_nested :: "content node" where
  "fs_nested =
     Dir [(''ses1'',
           Dir [(''img1'', File (DicomData hdr_first)),
                (''series2'', Dir [(''img2'', File (DicomData hdr_later))])])]"

definition fs_blank :: "content node" where
  "fs_blank = Dir [(''ses1'', Dir [(''img1'', File (DicomData []))])]"

section \<open>Notions the properties are stated with\<close>

text \<open>What the files below a directory hold, in the order of the walk.\<close>

definition session_files :: "'c node \<Rightarrow> string \<Rightarrow> 'c list" where
  "session_files fs dcm_dir =
     concat (map (\<lambda>item. map snd (snd (snd item))) (os_walk fs dcm_dir))"

text \<open>
  The result of a load is the template for the keys \<open>K\<close>: a mapping whose key set is
  \<open>K\<close> and whose values are all the sentinel.
\<close>

definition exclude_template :: "string list \<Rightarrow> exn + json \<Rightarrow> bool" where
  "exclude_template K r =
     (case r of
        Inr (JObj kvs) \<Rightarrow>
          set (map fst kvs) = set K \<and> list_all (\<lambda>kv. snd kv = JStr ''EXCLUDE'') kvs
      | _ \<Rightarrow> False)"

section \<open>The tree after a write\<close>

lemma map_of_set_entry: "map_of (set_entry k v es) k = Some v"
  by (induction es) auto

lemma lookup_after_store:
  "store_comps n cs c = Some n' \<Longrightarrow> lookup_comps n' cs = Some (File c)"
proof (induction n cs c arbitrary: n' rule: store_comps.induct)
  case (1 n c)
  then show ?case by simp
next
  case (2 c' x xs c)
  then show ?case by simp
next
  case (3 es x c)
  then show ?case
    by (auto simp: map_of_set_entry split: option.splits node.splits)
next
  case (4 es x y ys c)
  then show ?case
    by (auto simp: map_of_set_entry split: option.splits)
qed

lemma resolve_after_write:
  assumes "write_file fs p c = Some fs'"
  shows "resolve fs' p = Some (File c)"
proof -
  from assms have p: "p \<noteq> []" "\<not> must_be_dir p"
    and s: "store_comps fs (components p) c = Some fs'"
    by (auto simp: write_file_def split: if_splits)
  from s have "lookup_comps fs' (components p) = Some (File c)"
    by (rule lookup_after_store)
  with p show ?thesis
    by (simp add: resolve_def)
qed




section \<open>The scanner\<close>

lemma fold_scan_step_snd: "snd (fold scan_step items st) = snd st"
  by (induction items arbitrary: st) (simp_all add: scan_step_def)

lemma fold_scan_step_fst:
  "set (fst (fold scan_step items st)) = set (fst st) \<union> (\<Union>item \<in> set items. set (scan_item item))"
  by (induction items arbitrary: st) (auto simp: scan_step_def)

text \<open>Every line of the trace starts with a blank or a dash.\<close>

lemma trace_line_head:
  "hd (print2 (dashes n) b) = CHR '' '' \<or> hd (print2 (dashes n) b) = CHR ''-''"
  by (cases n) (simp_all add: dashes_def print2_def)

lemma scan_item_not_title: "l \<in> set (scan_item item) \<Longrightarrow> l \<noteq> pass2_title"
proof -
  assume l: "l \<in> set (scan_item item)"
  obtain root dirs files where item: "item = (root, dirs, files)"
    by (cases item)
  from l obtain n b where "l = print2 (dashes n) b"
    by (auto simp: item Let_def)
  then have "hd l = CHR '' '' \<or> hd l = CHR ''-''"
    by (simp add: trace_line_head)
  moreover have "hd pass2_title = CHR ''P''"
    by (simp add: pass2_title_def)
  ultimately show ?thesis
    by auto
qed

lemma scan_trace_not_title: "pass2_title \<notin> set (fst (scan_dicom_series fs dcm_dir))"
  using scan_item_not_title
  by (auto simp: scan_dicom_series_def fold_scan_step_fst)

lemma fold_scan_step_trace:
  "fst (fold scan_step items st) = fst st @ concat (map scan_item items)"
  by (induction items arbitrary: st) (simp_all add: scan_step_def)

lemma scan_item_lines:
  "scan_item item =
     print2 (dashes (length (split_sep (fst item)) - 1)) (basename (fst item))
       # map (\<lambda>f. print2 (dashes (length (split_sep (fst item)))) (fst f)) (snd (snd item))"
  by (cases item) (simp add: Let_def)

lemma trace_length:
  "length (concat (map scan_item items))
     = length items + length (concat (map (\<lambda>item. map snd (snd (snd item))) items))"
  by (induction items) (simp_all add: scan_item_lines)

text \<open>
  C9. Whatever the tree holds, \<open>scan_dicom_series\<close> returns the empty list. The loop
  prints, for each directory of the walk in turn, a line with the directory's name and
  then a line with the name of each of its files, indented by their depth, one line for
  every directory and every file; it never adds to \<open>series_list\<close>.
\<close>

theorem scan_dicom_series_returns_empty:
  "scan_dicom_series fs dcm_dir =
     (concat (map (\<lambda>item.
          print2 (dashes (length (split_sep (fst item)) - 1)) (basename (fst item))
            # map (\<lambda>f. print2 (dashes (length (split_sep (fst item)))) (fst f))
                (snd (snd item)))
        (os_walk fs dcm_dir)),
      []) \<and>
   length (fst (scan_dicom_series fs dcm_dir))
     = length (os_walk fs dcm_dir) + length (session_files fs dcm_dir)"
proof
  have trace: "fst (scan_dicom_series fs dcm_dir) = concat (map scan_item (os_walk fs dcm_dir))"
    by (simp add: scan_dicom_series_def fold_scan_step_trace)
  have lines: "scan_item = (\<lambda>item.
      print2 (dashes (length (split_sep (fst item)) - 1)) (basename (fst item))
        # map (\<lambda>f. print2 (dashes (length (split_sep (fst item)))) (fst f))
            (snd (snd item)))"
    by (rule ext) (rule scan_item_lines)
  from trace have "fst (scan_dicom_series fs dcm_dir) =
      concat (map (\<lambda>item.
          print2 (dashes (length (split_sep (fst item)) - 1)) (basename (fst item))
            # map (\<lambda>f. print2 (dashes (length (split_sep (fst item)))) (fst f))
                (snd (snd item)))
        (os_walk fs dcm_dir))"
    unfolding lines .
  moreover have "snd (scan_dicom_series fs dcm_dir) = []"
    by (simp add: scan_dicom_series_def fold_scan_step_snd)
  ultimately show "scan_dicom_series fs dcm_dir =
     (concat (map (\<lambda>item.
          print2 (dashes (length (split_sep (fst item)) - 1)) (basename (fst item))
            # map (\<lambda>f. print2 (dashes (length (split_sep (fst item)))) (fst f))
                (snd (snd item)))
        (os_walk fs dcm_dir)),
      [])"
    by (simp add: prod_eq_iff)
  show "length (fst (scan_dicom_series fs dcm_dir))
     = length (os_walk fs dcm_dir) + length (session_files fs dcm_dir)"
    by (simp only: trace trace_length session_files_def)
qed

theorem scan_dicom_series_returns_empty_witness:
  "scan_dicom_series fs_nested ''ses1'' =
     (['' ses1'', ''--- img1'', ''--- series2'', ''------ img2''], []) \<and>
   length (fst (scan_dicom_series fs_nested ''ses1'')) = 4"
proof -
  have lines: "concat (map (\<lambda>item.
          print2 (dashes (length (split_sep (fst item)) - 1)) (basename (fst item))
            # map (\<lambda>f. print2 (dashes (length (split_sep (fst item)))) (fst f))
                (snd (snd item)))
        (os_walk fs_nested ''ses1''))
      = ['' ses1'', ''--- img1'', ''--- series2'', ''------ img2'']"
    by code_simp
  have counted: "length (os_walk fs_nested ''ses1'') + length (session_files fs_nested ''ses1'') = 4"
    by code_simp
  from scan_dicom_series_returns_empty [of fs_nested "''ses1''"]
  show ?thesis
    unfolding lines counted .
qed

text \<open>
  C3. The scanner is to return the distinct series keys of the files below the root.
  In \<open>fs_fresh\<close> the file \<open>dicom/sub1/ses1/img1\<close> is a DICOM file of the series
  \<open>T1w\<close>; the scanner prints its name and returns no key.
\<close>

theorem scan_dicom_series_misses_series:
  "dicom_read_file (DicomData hdr_anon) = Some hdr_anon \<and>
   map_of hdr_anon ''SeriesDescription'' = Some (PStr ''T1w'') \<and>
   scan_dicom_series fs_fresh ''dicom'' =
     (['' dicom'', ''--- sub1'', ''------ ses1'', ''--------- notes.txt'', ''--------- img1'',
       ''--- sub2'', ''------ ses1'', ''--------- readme.txt''],
      [])"
  by code_simp

section \<open>The orchestrator\<close>

text \<open>
  C10. When the dictionary file loads to a non-empty mapping, \<open>main\<close> ends with a
  \<open>NameError\<close> for \<open>bids_root_dir\<close> before it has printed anything; and no run at all
  prints the title of Pass 2.
\<close>

theorem main_nonempty_dict_name_error:
  "(bids_load_prot_dict loads fs (path_join indir ''Protocol_Translator.json'') = Inr (JObj kvs)
      \<and> kvs \<noteq> [] \<longrightarrow>
      main loads fs indir = (fs, [], NameError ''bids_root_dir'')) \<and>
   pass2_title \<notin> set (fst (snd (main loads fs indir)))"
proof
  show "bids_load_prot_dict loads fs (path_join indir ''Protocol_Translator.json'') = Inr (JObj kvs)
      \<and> kvs \<noteq> [] \<longrightarrow>
      main loads fs indir = (fs, [], NameError ''bids_root_dir'')"
    by (simp add: main_def names_in_main_def)
next
  have "pass2_title \<notin> set pass1_lines"
    by (simp add: pass2_title_def pass1_lines_def)
  then have "pass2_title \<notin> set (fst (snd (run_pass1 fs indir)))"
    by (simp add: run_pass1_def Let_def scan_trace_not_title)
  then show "pass2_title \<notin> set (fst (snd (main loads fs indir)))"
    by (simp add: main_def names_in_main_def Let_def split: sum.splits)
qed

theorem main_nonempty_dict_name_error_witness:
  "main json_load fs_ready ''dicom'' = (fs_ready, [], NameError ''bids_root_dir'') \<and>
   pass2_title \<notin> set (fst (snd (main json_load fs_ready ''dicom'')))"
proof -
  have "bids_load_prot_dict json_load fs_ready (path_join ''dicom'' ''Protocol_Translator.json'')
          = Inr (JObj [(''ser1'', JStr ''T1w'')])"
    by code_simp
  then show ?thesis
    using main_nonempty_dict_name_error
      [of json_load fs_ready "''dicom''" "[(''ser1'', JStr ''T1w'')]"]
    by simp
qed

text \<open>
  C1. A dictionary that parses to a non-empty mapping and an output directory that
  exists are to select Pass 2. In \<open>fs_ready\<close> both hold, and \<open>main\<close> ends with a
  \<open>NameError\<close> and the status 1 instead, having printed nothing.
\<close>

theorem main_ready_crashes:
  "bids_load_prot_dict json_load fs_ready ''dicom/Protocol_Translator.json''
     = Inr (JObj [(''ser1'', JStr ''T1w'')]) \<and>
   isdir fs_ready ''bids'' \<and>
   main json_load fs_ready ''dicom'' = (fs_ready, [], NameError ''bids_root_dir'') \<and>
   exit_status (snd (snd (main json_load fs_ready ''dicom''))) = 1"
  by code_simp

text \<open>
  C2. Pass 1 is to write \<open>Protocol_Translator.json\<close> below the input root. On
  \<open>fs_fresh\<close>, which has no dictionary, \<open>main\<close> prints the banner and the trace and
  exits with 0, and the tree is as it was: there is no dictionary file afterwards.
\<close>

theorem main_pass1_writes_nothing:
  "main json_load fs_fresh ''dicom'' =
     (fs_fresh,
      pass1_lines @
        ['' dicom'', ''--- sub1'', ''------ ses1'', ''--------- notes.txt'', ''--------- img1'',
         ''--- sub2'', ''------ ses1'', ''--------- readme.txt''],
      SystemExit 0) \<and>
   \<not> isfile (fst (main json_load fs_fresh ''dicom'')) ''dicom/Protocol_Translator.json''"
  by code_simp

section \<open>The protocol dictionary\<close>





text \<open>
  C5. \<open>bids_load_prot_dict\<close> returns what the file parses to when the file exists, the
  empty mapping when there is no file at the path, and raises when the file does not
  parse; nothing in \<open>main\<close> catches that, so the run ends with the exception and the
  status 1.
\<close>

theorem bids_load_prot_dict_cases:
  "(resolve fs p = Some (File c) \<and> loads c = Some v \<longrightarrow>
      bids_load_prot_dict loads fs p = Inr v) \<and>
   (\<not> isfile fs p \<longrightarrow> bids_load_prot_dict loads fs p = Inr (JObj [])) \<and>
   (resolve fs p = Some (File c) \<and> loads c = None \<longrightarrow>
      bids_load_prot_dict loads fs p = Inl JSONDecodeError) \<and>
   (resolve fs (path_join indir ''Protocol_Translator.json'') = Some (File c) \<and> loads c = None \<longrightarrow>
      main loads fs indir = (fs, [], JSONDecodeError) \<and>
      exit_status (snd (snd (main loads fs indir))) = 1)"
  by (simp add: bids_load_prot_dict_def isfile_def main_def)

theorem bids_load_prot_dict_cases_witness:
  "bids_load_prot_dict json_load fs_ready ''dicom/Protocol_Translator.json''
     = Inr (JObj [(''ser1'', JStr ''T1w'')]) \<and>
   bids_load_prot_dict json_load fs_fresh ''dicom/Protocol_Translator.json'' = Inr (JObj []) \<and>
   bids_load_prot_dict json_load fs_broken ''dicom/Protocol_Translator.json''
     = Inl JSONDecodeError \<and>
   main json_load fs_broken ''dicom'' = (fs_broken, [], JSONDecodeError) \<and>
   exit_status (snd (snd (main json_load fs_broken ''dicom''))) = 1"
proof -
  have ready: "resolve fs_ready ''dicom/Protocol_Translator.json''
      = Some (File (JsonText (JObj [(''ser1'', JStr ''T1w'')])))"
    by code_simp
  have fresh: "\<not> isfile fs_fresh ''dicom/Protocol_Translator.json''"
    by code_simp
  have broken: "resolve fs_broken ''dicom/Protocol_Translator.json''
      = Some (File (OtherData ''{ser1: T1w''))"
    by code_simp
  have joined: "path_join ''dicom'' ''Protocol_Translator.json'' = ''dicom/Protocol_Translator.json''"
    by code_simp
  show ?thesis
    using ready fresh broken joined
      bids_load_prot_dict_cases
        [of fs_ready "''dicom/Protocol_Translator.json''"
           "JsonText (JObj [(''ser1'', JStr ''T1w'')])" json_load "JObj [(''ser1'', JStr ''T1w'')]"]
      bids_load_prot_dict_cases
        [of fs_fresh "''dicom/Protocol_Translator.json''" _ json_load]
      bids_load_prot_dict_cases
        [of fs_broken "''dicom/Protocol_Translator.json''"
           "OtherData ''{ser1: T1w''" json_load _ "''dicom''"]
    by simp
qed

text \<open>
  C6, as the code has it. \<open>bids_create_prot_dict\<close> takes a dictionary, not a key set,
  and writes it as it is. Where no file exists at the path and the file can be created,
  and \<open>json.load\<close> reads back what \<open>json.dump\<close> wrote, loading the new file returns
  the dictionary that was passed: its keys and its values, so it is the template for
  \<open>K\<close> exactly when the caller passed the template for \<open>K\<close>.
\<close>

theorem load_after_create:
  assumes "\<not> isfile fs p"
    and "snd (snd (bids_create_prot_dict dumps fs p d)) = None"
    and "loads (dumps d) = Some d"
  shows "bids_load_prot_dict loads (fst (bids_create_prot_dict dumps fs p d)) p = Inr d \<and>
    exclude_template K (bids_load_prot_dict loads (fst (bids_create_prot_dict dumps fs p d)) p)
      = exclude_template K (Inr d)"
proof (cases "write_file fs p (dumps d)")
  case None
  with assms(1,2) show ?thesis by (simp add: bids_create_prot_dict_def)
next
  case (Some fs')
  then have "resolve fs' p = Some (File (dumps d))" by (rule resolve_after_write)
  with assms(1,3) Some show ?thesis
    by (simp add: bids_create_prot_dict_def bids_load_prot_dict_def isfile_def)
qed

theorem load_after_create_witness:
  "bids_load_prot_dict json_load
     (fst (bids_create_prot_dict json_dump fs_fresh ''dicom/Protocol_Translator.json''
        (JObj [(''ser1'', JStr ''EXCLUDE'')])))
     ''dicom/Protocol_Translator.json''
     = Inr (JObj [(''ser1'', JStr ''EXCLUDE'')]) \<and>
   exclude_template [''ser1'']
     (bids_load_prot_dict json_load
        (fst (bids_create_prot_dict json_dump fs_fresh ''dicom/Protocol_Translator.json''
           (JObj [(''ser1'', JStr ''EXCLUDE'')])))
        ''dicom/Protocol_Translator.json'')"
proof -
  have absent: "\<not> isfile fs_fresh ''dicom/Protocol_Translator.json''"
    by code_simp
  have created: "snd (snd (bids_create_prot_dict json_dump fs_fresh
      ''dicom/Protocol_Translator.json'' (JObj [(''ser1'', JStr ''EXCLUDE'')]))) = None"
    by code_simp
  have again: "json_load (json_dump (JObj [(''ser1'', JStr ''EXCLUDE'')]))
      = Some (JObj [(''ser1'', JStr ''EXCLUDE'')])"
    by (simp add: json_dump_def)
  have template: "exclude_template [''ser1''] (Inr (JObj [(''ser1'', JStr ''EXCLUDE'')]))"
    by (simp add: exclude_template_def)
  have both: "bids_load_prot_dict json_load
       (fst (bids_create_prot_dict json_dump fs_fresh ''dicom/Protocol_Translator.json''
          (JObj [(''ser1'', JStr ''EXCLUDE'')])))
       ''dicom/Protocol_Translator.json''
       = Inr (JObj [(''ser1'', JStr ''EXCLUDE'')]) \<and>
     exclude_template [''ser1'']
       (bids_load_prot_dict json_load
          (fst (bids_create_prot_dict json_dump fs_fresh ''dicom/Protocol_Translator.json''
             (JObj [(''ser1'', JStr ''EXCLUDE'')])))
          ''dicom/Protocol_Translator.json'')
       = exclude_template [''ser1''] (Inr (JObj [(''ser1'', JStr ''EXCLUDE'')]))"
    by (rule load_after_create [where loads = json_load and dumps = json_dump, OF absent created again])
  from both have loaded: "bids_load_prot_dict json_load
       (fst (bids_create_prot_dict json_dump fs_fresh ''dicom/Protocol_Translator.json''
          (JObj [(''ser1'', JStr ''EXCLUDE'')])))
       ''dicom/Protocol_Translator.json''
       = Inr (JObj [(''ser1'', JStr ''EXCLUDE'')])"
    by (rule conjunct1)
  from both have "exclude_template [''ser1'']
       (bids_load_prot_dict json_load
          (fst (bids_create_prot_dict json_dump fs_fresh ''dicom/Protocol_Translator.json''
             (JObj [(''ser1'', JStr ''EXCLUDE'')])))
          ''dicom/Protocol_Translator.json'')
       = exclude_template [''ser1''] (Inr (JObj [(''ser1'', JStr ''EXCLUDE'')]))"
    by (rule conjunct2)
  then have "exclude_template [''ser1'']
       (bids_load_prot_dict json_load
          (fst (bids_create_prot_dict json_dump fs_fresh ''dicom/Protocol_Translator.json''
             (JObj [(''ser1'', JStr ''EXCLUDE'')])))
          ''dicom/Protocol_Translator.json'')"
    using template by (rule iffD2)
  with loaded show ?thesis
    by (rule conjI)
qed

text \<open>
  C6, as it is written, fails: the dictionary \<open>{"ser1": "T1w"}\<close> comes back with the
  value \<open>T1w\<close>, and the key list \<open>["ser1"]\<close> comes back as a list; neither is the
  template for the key \<open>ser1\<close>.
\<close>

theorem load_after_create_counterexample:
  "\<not> exclude_template [''ser1'']
       (bids_load_prot_dict json_load
          (fst (bids_create_prot_dict json_dump fs_fresh ''dicom/Protocol_Translator.json''
             (JObj [(''ser1'', JStr ''T1w'')])))
          ''dicom/Protocol_Translator.json'') \<and>
   \<not> exclude_template [''ser1'']
       (bids_load_prot_dict json_load
          (fst (bids_create_prot_dict json_dump fs_fresh ''dicom/Protocol_Translator.json''
             (JArr [JStr ''ser1''])))
          ''dicom/Protocol_Translator.json'')"
  by code_simp

section \<open>The header reader\<close>

text \<open>With no header, or only empty ones, in the files, \<open>ds\<close> stays false.\<close>

lemma read_files_none:
  "ds = [] \<Longrightarrow> \<forall>f \<in> set files. read_file (snd f) = None \<or> read_file (snd f) = Some []
     \<Longrightarrow> read_files read_file files ds = []"
  by (induction files arbitrary: ds) (auto simp: Let_def)

lemma read_dirs_none:
  "ds = [] \<Longrightarrow>
   \<forall>item \<in> set items. \<forall>f \<in> set (snd (snd item)).
      read_file (snd f) = None \<or> read_file (snd f) = Some []
     \<Longrightarrow> read_dirs read_file items ds = []"
proof (induction items arbitrary: ds)
  case Nil
  then show ?case by simp
next
  case (Cons item items)
  obtain subdir dirs files where item: "item = (subdir, dirs, files)"
    by (cases item)
  from Cons.prems have "read_files read_file files ds = []"
    by (intro read_files_none) (auto simp: item)
  with Cons show ?case
    by (simp add: item)
qed

text \<open>What \<open>ds\<close> can be: still empty, or a header read from one of the files.\<close>

lemma read_files_from:
  "ds = [] \<or> (\<exists>c \<in> S. read_file c = Some ds) \<Longrightarrow> snd ` set files \<subseteq> S
     \<Longrightarrow> read_files read_file files ds = [] \<or>
         (\<exists>c \<in> S. read_file c = Some (read_files read_file files ds))"
proof (induction files arbitrary: ds)
  case Nil
  then show ?case by simp
next
  case (Cons f files)
  let ?ds' = "case read_file (snd f) of None \<Rightarrow> ds | Some d \<Rightarrow> d"
  have "?ds' = [] \<or> (\<exists>c \<in> S. read_file c = Some ?ds')"
    using Cons.prems by (auto split: option.splits)
  moreover from Cons.prems have "snd ` set files \<subseteq> S"
    by auto
  ultimately have "read_files read_file files ?ds' = [] \<or>
      (\<exists>c \<in> S. read_file c = Some (read_files read_file files ?ds'))"
    by (rule Cons.IH)
  with \<open>?ds' = [] \<or> (\<exists>c \<in> S. read_file c = Some ?ds')\<close> show ?case
    by (auto simp: Let_def)
qed

lemma read_dirs_from:
  "ds = [] \<or> (\<exists>c \<in> S. read_file c = Some ds) \<Longrightarrow>
   (\<forall>item \<in> set items. snd ` set (snd (snd item)) \<subseteq> S)
     \<Longrightarrow> read_dirs read_file items ds = [] \<or>
         (\<exists>c \<in> S. read_file c = Some (read_dirs read_file items ds))"
proof (induction items arbitrary: ds)
  case Nil
  then show ?case by simp
next
  case (Cons item items)
  obtain subdir dirs files where item: "item = (subdir, dirs, files)"
    by (cases item)
  from Cons.prems have "snd ` set files \<subseteq> S"
    by (simp add: item)
  with Cons.prems(1) have "read_files read_file files ds = [] \<or>
      (\<exists>c \<in> S. read_file c = Some (read_files read_file files ds))"
    by (rule read_files_from)
  moreover from Cons.prems have "\<forall>item \<in> set items. snd ` set (snd (snd item)) \<subseteq> S"
    by simp
  ultimately have "read_dirs read_file items (read_files read_file files ds) = [] \<or>
      (\<exists>c \<in> S. read_file c = Some (read_dirs read_file items (read_files read_file files ds)))"
    by (rule Cons.IH)
  then show ?case
    by (simp add: item)
qed

text \<open>Once a header is held, only an empty header can make \<open>ds\<close> false again.\<close>

lemma read_files_keeps:
  "ds \<noteq> [] \<Longrightarrow> \<forall>f \<in> set files. read_file (snd f) \<noteq> Some []
     \<Longrightarrow> read_files read_file files ds \<noteq> []"
  by (cases files) (auto simp: Let_def split: option.splits)

lemma read_files_finds:
  "\<exists>f \<in> set files. read_file (snd f) \<noteq> None \<Longrightarrow>
   \<forall>f \<in> set files. read_file (snd f) \<noteq> Some []
     \<Longrightarrow> read_files read_file files ds \<noteq> []"
proof (induction files arbitrary: ds)
  case Nil
  then show ?case by simp
next
  case (Cons f files)
  show ?case
  proof (cases "read_file (snd f)")
    case None
    with Cons.prems have "\<exists>f \<in> set files. read_file (snd f) \<noteq> None"
      and "\<forall>f \<in> set files. read_file (snd f) \<noteq> Some []"
      by auto
    then have "read_files read_file files ds \<noteq> []"
      by (rule Cons.IH)
    with None show ?thesis
      by (auto simp: Let_def)
  next
    case (Some d)
    with Cons.prems(2) have "d \<noteq> []"
      by auto
    with Some show ?thesis
      by (simp add: Let_def)
  qed
qed

lemma read_dirs_keeps:
  "ds \<noteq> [] \<Longrightarrow>
   \<forall>item \<in> set items. \<forall>f \<in> set (snd (snd item)). read_file (snd f) \<noteq> Some []
     \<Longrightarrow> read_dirs read_file items ds \<noteq> []"
proof (induction items arbitrary: ds)
  case Nil
  then show ?case by simp
next
  case (Cons item items)
  obtain subdir dirs files where item: "item = (subdir, dirs, files)"
    by (cases item)
  from Cons.prems have "read_files read_file files ds \<noteq> []"
    by (intro read_files_keeps) (auto simp: item)
  with Cons show ?case
    by (simp add: item)
qed

lemma read_dirs_finds:
  "\<exists>item \<in> set items. \<exists>f \<in> set (snd (snd item)). read_file (snd f) \<noteq> None \<Longrightarrow>
   \<forall>item \<in> set items. \<forall>f \<in> set (snd (snd item)). read_file (snd f) \<noteq> Some []
     \<Longrightarrow> read_dirs read_file items ds \<noteq> []"
proof (induction items arbitrary: ds)
  case Nil
  then show ?case by simp
next
  case (Cons item items)
  obtain subdir dirs files where item: "item = (subdir, dirs, files)"
    by (cases item)
  from Cons.prems(2)
  have rest: "\<forall>item \<in> set items. \<forall>f \<in> set (snd (snd item)). read_file (snd f) \<noteq> Some []"
    and here: "\<forall>f \<in> set files. read_file (snd f) \<noteq> Some []"
    by (auto simp: item)
  show ?case
  proof (cases "\<exists>f \<in> set files. read_file (snd f) \<noteq> None")
    case True
    then have "read_files read_file files ds \<noteq> []"
      using here by (rule read_files_finds)
    then have "read_dirs read_file items (read_files read_file files ds) \<noteq> []"
      using rest by (rule read_dirs_keeps)
    then show ?thesis
      by (simp add: item)
  next
    case False
    with Cons.prems(1)
    have "\<exists>item \<in> set items. \<exists>f \<in> set (snd (snd item)). read_file (snd f) \<noteq> None"
      by (auto simp: item)
    then have "read_dirs read_file items (read_files read_file files ds) \<noteq> []"
      using rest by (rule Cons.IH)
    then show ?thesis
      by (simp add: item)
  qed
qed

text \<open>
  C7, as the code has it. \<open>bids_dcm_info\<close> prints its three lines and exits with 1
  when no file below the directory yields a header with a data element. When some file
  parses and no file parses to an empty header, it returns the sex and the age of a
  header read from one of the files, \<open>Unknown\<close> and 0 standing in for an element that
  header lacks.
\<close>

theorem bids_dcm_info_outcomes:
  "((\<forall>c \<in> set (session_files fs dcm_dir). read_file c = None \<or> read_file c = Some []) \<longrightarrow>
      bids_dcm_info read_file fs dcm_dir = (no_header_lines dcm_dir, Inl (SystemExit 1)) \<and>
      exit_status (SystemExit 1) = 1) \<and>
   ((\<exists>c \<in> set (session_files fs dcm_dir). read_file c \<noteq> None) \<and>
    (\<forall>c \<in> set (session_files fs dcm_dir). read_file c \<noteq> Some []) \<longrightarrow>
      (\<exists>c \<in> set (session_files fs dcm_dir). \<exists>ds.
          read_file c = Some ds \<and>
          bids_dcm_info read_file fs dcm_dir =
            ([], Inr \<lparr> Sex = (case map_of ds ''PatientSex'' of
                                Some v \<Rightarrow> v | None \<Rightarrow> PStr ''Unknown''),
                       Age = (case map_of ds ''PatientAge'' of
                                Some v \<Rightarrow> v | None \<Rightarrow> PInt 0) \<rparr>)))"
proof (intro conjI impI)
  assume "\<forall>c \<in> set (session_files fs dcm_dir). read_file c = None \<or> read_file c = Some []"
  then have "read_dirs read_file (os_walk fs dcm_dir) [] = []"
    by (intro read_dirs_none) (auto simp: session_files_def)
  then show "bids_dcm_info read_file fs dcm_dir = (no_header_lines dcm_dir, Inl (SystemExit 1))"
    by (simp add: bids_dcm_info_def)
next
  show "exit_status (SystemExit 1) = 1"
    by simp
next
  let ?S = "set (session_files fs dcm_dir)"
  let ?ds = "read_dirs read_file (os_walk fs dcm_dir) []"
  assume a: "(\<exists>c \<in> ?S. read_file c \<noteq> None) \<and> (\<forall>c \<in> ?S. read_file c \<noteq> Some [])"
  then have "?ds \<noteq> []"
    by (intro read_dirs_finds) (auto simp: session_files_def)
  moreover have "?ds = [] \<or> (\<exists>c \<in> ?S. read_file c = Some ?ds)"
    by (rule read_dirs_from) (auto simp: session_files_def)
  ultimately obtain c where "c \<in> ?S" "read_file c = Some ?ds"
    by auto
  with \<open>?ds \<noteq> []\<close> show "\<exists>c \<in> ?S. \<exists>ds. read_file c = Some ds \<and>
      bids_dcm_info read_file fs dcm_dir =
        ([], Inr \<lparr> Sex = (case map_of ds ''PatientSex'' of
                            Some v \<Rightarrow> v | None \<Rightarrow> PStr ''Unknown''),
                   Age = (case map_of ds ''PatientAge'' of
                            Some v \<Rightarrow> v | None \<Rightarrow> PInt 0) \<rparr>)"
    by (auto simp: bids_dcm_info_def fill_info_def Let_def)
qed

theorem bids_dcm_info_outcomes_witness:
  "bids_dcm_info dicom_read_file fs_fresh ''dicom/sub2/ses1''
     = (no_header_lines ''dicom/sub2/ses1'', Inl (SystemExit 1)) \<and>
   bids_dcm_info dicom_read_file fs_fresh ''dicom/sub1/ses1''
     = ([], Inr \<lparr> Sex = PStr ''Unknown'', Age = PInt 0 \<rparr>)"
proof -
  have none: "session_files fs_fresh ''dicom/sub2/ses1'' = [OtherData ''no images'']"
    by code_simp
  have some: "session_files fs_fresh ''dicom/sub1/ses1''
      = [OtherData ''first visit'', DicomData hdr_anon]"
    by code_simp
  have sex: "map_of hdr_anon ''PatientSex'' = None"
    by code_simp
  have age: "map_of hdr_anon ''PatientAge'' = None"
    by code_simp
  have filled: "hdr_anon \<noteq> []"
    by (simp add: hdr_anon_def)
  show ?thesis
    using none some sex age filled
      bids_dcm_info_outcomes [of fs_fresh "''dicom/sub2/ses1''" dicom_read_file]
      bids_dcm_info_outcomes [of fs_fresh "''dicom/sub1/ses1''" dicom_read_file]
    by auto
qed

text \<open>
  C7, as it is written, fails: the only file of the session \<open>ses1\<close> of \<open>fs_blank\<close>
  parses, to a header with no data element, and \<open>bids_dcm_info\<close> exits with 1 instead
  of returning \<open>Unknown\<close> and 0.
\<close>

theorem bids_dcm_info_counterexample:
  "session_files fs_blank ''ses1'' = [DicomData []] \<and>
   dicom_read_file (DicomData []) = Some [] \<and>
   bids_dcm_info dicom_read_file fs_blank ''ses1''
     = (no_header_lines ''ses1'', Inl (SystemExit 1)) \<and>
   bids_dcm_info dicom_read_file fs_blank ''ses1''
     \<noteq> ([], Inr \<lparr> Sex = PStr ''Unknown'', Age = PInt 0 \<rparr>)"
  by code_simp

text \<open>
  C8. The reader is to stop at the first header it parses. In the session \<open>ses1\<close> of
  \<open>fs_nested\<close> the first file parses (sex \<open>M\<close>, age \<open>030Y\<close>); the \<open>break\<close> leaves
  the loop over that directory's files only, the walk goes on into \<open>series2\<close>, and the
  result is taken from the header read there.
\<close>

theorem bids_dcm_info_later_header_wins:
  "map (\<lambda>item. map fst (snd (snd item))) (os_walk fs_nested ''ses1'') = [[''img1''], [''img2'']] \<and>
   read_files dicom_read_file [(''img1'', DicomData hdr_first)] [] = hdr_first \<and>
   fill_info hdr_first = \<lparr> Sex = PStr ''M'', Age = PStr ''030Y'' \<rparr> \<and>
   bids_dcm_info dicom_read_file fs_nested ''ses1''
     = ([], Inr \<lparr> Sex = PStr ''F'', Age = PStr ''040Y'' \<rparr>)"
  by code_simp

end
